theory Spec2Isabelle
  imports Complex_Main "HOL-Library.Sublist"
begin

section \<open>Data model (models.py)\<close>

text \<open>
  Python's \<^verbatim>\<open>str\<close> is modelled as \<^typ>\<open>string\<close>, one \<^typ>\<open>char\<close> per code point, for
  texts of ASCII code points. Python's \<^verbatim>\<open>float\<close> is modelled as \<^typ>\<open>real\<close>: timestamps and
  scores are computed with exact arithmetic, without rounding, infinities or NaN. A score is
  the quotient of two token counts, and its comparison with 0.25, 0.3 or 0.5 has the same
  outcome in floating point for every pair of token sets that fits in memory.
\<close>

record InstructionStep =
  step_number :: int
  description :: string
  expected_duration_seconds :: "real option"
  critical :: bool

record Instruction =
  title :: string
  steps :: "InstructionStep list"

record DetectedAction =
  description :: string
  timestamp_start :: real
  timestamp_end :: real
  confidence :: real

text \<open>The field names \<open>step_number\<close> and \<open>description\<close> occur in two classes; they are
  written qualified (\<open>InstructionStep.description\<close>, \<open>DetectedAction.description\<close>,
  \<open>ActionMatch.step_number\<close>) throughout.\<close>

record ActionMatch =
  step_number :: int
  matched :: bool
  detected_action :: "DetectedAction option"
  deviation :: "string option"

text \<open>The constructor call \<^verbatim>\<open>DetectedAction(description=..., timestamp_start=...,
  timestamp_end=..., confidence=0.8)\<close> of \<^verbatim>\<open>analyze_video_sequence\<close> and of the live
  \<^verbatim>\<open>analyze_frame\<close>.\<close>

definition observed :: "string \<Rightarrow> real \<Rightarrow> real \<Rightarrow> DetectedAction" where
  "observed d t0 t1 =
     \<lparr>DetectedAction.description = d, timestamp_start = t0, timestamp_end = t1,
      confidence = 0.8\<rparr>"

section \<open>Text operations of the Python library used by the agent\<close>

text \<open>\<^verbatim>\<open>str.isspace\<close> on ASCII: tab, line feed, vertical tab, form feed, carriage return,
  the four separators 28..31, and the space.\<close>

definition isspace :: "char \<Rightarrow> bool" where
  "isspace c = (of_char c \<in> {9, 10, 11, 12, 13, 28, 29, 30, 31, 32 :: nat})"

text \<open>\<^verbatim>\<open>str.lower()\<close> on ASCII: the letters A..Z move to a..z.\<close>

definition lower_char :: "char \<Rightarrow> char" where
  "lower_char c =
     (if 65 \<le> (of_char c :: nat) \<and> (of_char c :: nat) \<le> 90
      then char_of (of_char c + 32 :: nat) else c)"

definition str_lower :: "string \<Rightarrow> string" where
  "str_lower s = map lower_char s"

text \<open>\<^verbatim>\<open>str.split()\<close> with no argument: the maximal runs of non-whitespace characters,
  in order; no empty string is produced. The first argument is the word being read.\<close>

fun split_from :: "string \<Rightarrow> string \<Rightarrow> string list" where
  "split_from w [] = (if w = [] then [] else [w])"
| "split_from w (c # cs) =
     (if isspace c then (if w = [] then split_from [] cs else w # split_from [] cs)
      else split_from (w @ [c]) cs)"

definition str_split :: "string \<Rightarrow> string list" where
  "str_split s = split_from [] s"

text \<open>\<^verbatim>\<open>str.strip()\<close>: leading and trailing whitespace removed.\<close>

definition str_strip :: "string \<Rightarrow> string" where
  "str_strip s = rev (dropWhile isspace (rev (dropWhile isspace s)))"

section \<open>Similarity of descriptions (ai\_agent.py)\<close>

text \<open>\<^verbatim>\<open>set(desc.lower().split())\<close>\<close>

definition words_of :: "string \<Rightarrow> string set" where
  "words_of desc = set (str_split (str_lower desc))"

text \<open>\<^verbatim>\<open>VideoAnalysisAgent._calculate_match_score\<close>\<close>

definition calculate_match_score :: "string \<Rightarrow> string \<Rightarrow> real" where
  "calculate_match_score instruction_desc action_desc =
     (let words1 = words_of instruction_desc;
          words2 = words_of action_desc
      in if words1 = {} \<or> words2 = {} then 0
         else let intersection = card (words1 \<inter> words2);
                  union = card (words1 \<union> words2)
              in real intersection / real union)"

text \<open>\<^verbatim>\<open>VideoAnalysisAgent._are_similar_descriptions\<close>\<close>

definition are_similar_descriptions :: "string \<Rightarrow> string \<Rightarrow> bool" where
  "are_similar_descriptions desc1 desc2 =
     (let words1 = words_of desc1;
          words2 = words_of desc2
      in if words1 = {} \<or> words2 = {} then False
         else let intersection = card (words1 \<inter> words2);
                  union = card (words1 \<union> words2)
              in real intersection / real union > 0.5)"

section \<open>Merging of consecutive actions (ai\_agent.py)\<close>

text \<open>
  One iteration of the loop of \<^verbatim>\<open>_merge_similar_actions\<close> over \<^verbatim>\<open>actions[1:]\<close>:
  \<^verbatim>\<open>merged\<close> is never empty there, \<^verbatim>\<open>last_action = merged[-1]\<close> is either updated in
  place (its \<^verbatim>\<open>timestamp_end\<close> overwritten) or followed by the appended action.
  The actions of the input are distinct objects (\<^verbatim>\<open>analyze_video_sequence\<close> creates one for
  each batch), so the update in place touches no action still to be read, and the returned
  list is modelled by value.
\<close>

definition merge_step :: "DetectedAction list \<Rightarrow> DetectedAction \<Rightarrow> DetectedAction list" where
  "merge_step merged action =
     (let last_action = last merged;
          time_gap = timestamp_start action - timestamp_end last_action
      in if time_gap < 10 \<and>
            are_similar_descriptions (DetectedAction.description last_action)
              (DetectedAction.description action)
         then butlast merged @ [last_action\<lparr>timestamp_end := timestamp_end action\<rparr>]
         else merged @ [action])"

definition merge_similar_actions :: "DetectedAction list \<Rightarrow> DetectedAction list" where
  "merge_similar_actions actions =
     (case actions of
        [] \<Rightarrow> []
      | first # rest \<Rightarrow> foldl merge_step [first] rest)"

subsection \<open>The merger as the specification words it\<close>

text \<open>
  A single walk with an open current interval: the next action is absorbed when the gap is
  below ten seconds and the similarity score exceeds one half, otherwise the current interval
  is closed and the action opens a new one; the last open interval is emitted.
\<close>

fun spec_merge_walk :: "DetectedAction \<Rightarrow> DetectedAction list \<Rightarrow> DetectedAction list" where
  "spec_merge_walk current [] = [current]"
| "spec_merge_walk current (action # rest) =
     (let gap = timestamp_start action - timestamp_end current
      in if gap < 10 \<and>
            calculate_match_score (DetectedAction.description current)
              (DetectedAction.description action) > 0.5
         then spec_merge_walk (current\<lparr>timestamp_end := timestamp_end action\<rparr>) rest
         else current # spec_merge_walk action rest)"

definition spec_merge :: "DetectedAction list \<Rightarrow> DetectedAction list" where
  "spec_merge actions =
     (case actions of
        [] \<Rightarrow> []
      | first # rest \<Rightarrow> spec_merge_walk first rest)"

text \<open>What an output interval keeps of the action that opened it.\<close>

definition kept_of :: "DetectedAction \<Rightarrow> string \<times> real \<times> real" where
  "kept_of a = (DetectedAction.description a, timestamp_start a, confidence a)"

section \<open>Batch matching against the instruction (ai\_agent.py)\<close>

text \<open>
  \<^verbatim>\<open>match_with_instruction\<close> reads the model's reply with two regular expressions of
  Python's \<^verbatim>\<open>re\<close> module and with \<^verbatim>\<open>float()\<close>. These library calls are inputs of the
  model: what \<^verbatim>\<open>re.search\<close> returns for the pattern of a step, what it returns for the
  time pattern, and what \<^verbatim>\<open>float\<close> returns. Everything the method does with their results
  is modelled.
\<close>

text \<open>\<^verbatim>\<open>regex_match.group(1).upper()\<close>: one of the six alternatives of the pattern's
  first group, matched without regard to case, in upper case; \<open>DA_ru\<close> and \<open>NET_ru\<close> are the
  two alternatives written in Cyrillic letters.\<close>

datatype status_token = DA | NET | YES | NO | DA_ru | NET_ru

text \<open>The groups of a match of the step pattern; group 2 may not take part.\<close>

record step_groups =
  status_group :: status_token
  time_range_group :: "string option"
  comment_group :: string

text \<open>The groups of a match of the time pattern; group 2 may not take part.\<close>

record time_groups =
  start_group :: string
  end_group :: "string option"

record py_library =
  search_step :: "int \<Rightarrow> string \<Rightarrow> step_groups option"
  search_time :: "string \<Rightarrow> time_groups option"
  float_of :: "string \<Rightarrow> real option"

text \<open>\<^verbatim>\<open>float()\<close> raises \<^verbatim>\<open>ValueError\<close> on a string such as \<^verbatim>\<open>1.2.3\<close>, which the time pattern
  accepts; \<open>float_of\<close> is \<open>None\<close> there.\<close>

datatype error = ValueError

text \<open>Truth value of an optional string: neither \<^verbatim>\<open>None\<close> nor empty.\<close>

definition truthy :: "string option \<Rightarrow> bool" where
  "truthy s = (case s of None \<Rightarrow> False | Some t \<Rightarrow> t \<noteq> [])"

text \<open>The Russian text of the deviation "action not detected", as its UTF-8 bytes; it is
  only stored, never inspected.\<close>

definition action_not_detected :: string where
  "action_not_detected = map char_of
     [208, 148, 208, 181, 208, 185, 209, 129, 209, 130, 208, 178, 208, 184, 208, 181, 32,
      208, 189, 208, 181, 32, 208, 190, 208, 177, 208, 189, 208, 176, 209, 128, 209, 131,
      208, 182, 208, 181, 208, 189, 208, 190 :: nat]"

text \<open>The first loop over the actions: the largest positive overlap with the parsed range,
  the first action winning ties. The pair is \<^verbatim>\<open>(best_overlap, best_match)\<close>.\<close>

fun overlap_loop ::
  "real \<Rightarrow> real \<Rightarrow> DetectedAction list \<Rightarrow> real \<times> DetectedAction option \<Rightarrow>
   real \<times> DetectedAction option" where
  "overlap_loop start_time end_time [] acc = acc"
| "overlap_loop start_time end_time (action # rest) (best_overlap, best_match) =
     (let overlap_start = max (timestamp_start action) start_time;
          overlap_end = min (timestamp_end action) end_time;
          overlap = max 0 (overlap_end - overlap_start)
      in if overlap > best_overlap
         then overlap_loop start_time end_time rest (overlap, Some action)
         else overlap_loop start_time end_time rest (best_overlap, best_match))"

text \<open>The second loop: an action containing the start instant wins at once (\<^verbatim>\<open>break\<close>);
  otherwise the nearest action under 30 seconds. \<^verbatim>\<open>min_distance\<close> starts at infinity,
  here \<open>None\<close>.\<close>

fun distance_loop ::
  "real \<Rightarrow> real \<Rightarrow> DetectedAction list \<Rightarrow> real option \<Rightarrow> DetectedAction option \<Rightarrow>
   DetectedAction option" where
  "distance_loop start_time end_time [] min_distance best_match = best_match"
| "distance_loop start_time end_time (action # rest) min_distance best_match =
     (if timestamp_start action \<le> start_time \<and> start_time \<le> timestamp_end action
      then Some action
      else let distance = min \<bar>timestamp_start action - start_time\<bar>
                              \<bar>timestamp_end action - end_time\<bar>
           in if (case min_distance of None \<Rightarrow> True | Some m \<Rightarrow> distance < m) \<and> distance < 30
              then distance_loop start_time end_time rest (Some distance) (Some action)
              else distance_loop start_time end_time rest min_distance best_match)"

text \<open>The body of \<^verbatim>\<open>if matched and time_range:\<close>; the result is \<^verbatim>\<open>best_match\<close>.\<close>

definition resolve_time_range ::
  "py_library \<Rightarrow> string \<Rightarrow> DetectedAction list \<Rightarrow> error + DetectedAction option" where
  "resolve_time_range lib time_range detected_actions =
     (case search_time lib time_range of
        None \<Rightarrow> Inr None
      | Some time_match \<Rightarrow>
          (case float_of lib (start_group time_match) of
             None \<Rightarrow> Inl ValueError
           | Some start_time \<Rightarrow>
               (case (case end_group time_match of
                        None \<Rightarrow> Some start_time
                      | Some g \<Rightarrow> if g \<noteq> [] then float_of lib g else Some start_time) of
                  None \<Rightarrow> Inl ValueError
                | Some end_time \<Rightarrow>
                    (let best_match =
                           snd (overlap_loop start_time end_time detected_actions (0, None))
                     in if best_match = None \<or> start_time = end_time
                        then Inr (distance_loop start_time end_time detected_actions
                                    None best_match)
                        else Inr best_match))))"

text \<open>The loop of the \<^verbatim>\<open>else\<close> branch (no match of the step pattern): the pair is
  \<^verbatim>\<open>(best_score, best_match)\<close>.\<close>

fun score_loop ::
  "string \<Rightarrow> DetectedAction list \<Rightarrow> real \<times> DetectedAction option \<Rightarrow>
   real \<times> DetectedAction option" where
  "score_loop step_desc [] acc = acc"
| "score_loop step_desc (action # rest) (best_score, best_match) =
     (let score = calculate_match_score step_desc (DetectedAction.description action)
      in if score > best_score
         then score_loop step_desc rest (score, Some action)
         else score_loop step_desc rest (best_score, best_match))"

text \<open>One iteration of the loop over \<^verbatim>\<open>instruction.steps\<close>: the \<^verbatim>\<open>ActionMatch\<close> appended for
  the step, or the exception that ends the call.\<close>

definition match_step ::
  "py_library \<Rightarrow> string \<Rightarrow> DetectedAction list \<Rightarrow> InstructionStep \<Rightarrow> error + ActionMatch" where
  "match_step lib llm_response detected_actions step =
     (case search_step lib (InstructionStep.step_number step) llm_response of
        Some regex_match \<Rightarrow>
          (let status = status_group regex_match;
               is_matched = (status \<in> {DA, YES, DA_ru});
               time_range = time_range_group regex_match;
               comment = (if comment_group regex_match \<noteq> []
                          then Some (comment_group regex_match) else None)
           in case (if is_matched \<and> truthy time_range
                    then resolve_time_range lib (case time_range of Some t \<Rightarrow> t | None \<Rightarrow> [])
                           detected_actions
                    else Inr None) of
                Inl e \<Rightarrow> Inl e
              | Inr best_match \<Rightarrow>
                  Inr \<lparr>ActionMatch.step_number = InstructionStep.step_number step,
                       matched = is_matched,
                       detected_action = (if is_matched then best_match else None),
                       deviation = (if \<not> is_matched \<and> truthy comment
                                    then map_option str_strip comment else None)\<rparr>)
      | None \<Rightarrow>
          (let (best_score, best_match) =
                 score_loop (InstructionStep.description step) detected_actions (0, None);
               is_matched = (best_score > 0.25)
           in Inr \<lparr>ActionMatch.step_number = InstructionStep.step_number step,
                   matched = is_matched,
                   detected_action = (if is_matched then best_match else None),
                   deviation = (if \<not> is_matched then Some action_not_detected else None)\<rparr>))"

text \<open>The loop over the steps, in order; an exception ends it.\<close>

fun match_steps ::
  "py_library \<Rightarrow> string \<Rightarrow> DetectedAction list \<Rightarrow> InstructionStep list \<Rightarrow>
   error + ActionMatch list" where
  "match_steps lib llm_response detected_actions [] = Inr []"
| "match_steps lib llm_response detected_actions (step # rest) =
     (case match_step lib llm_response detected_actions step of
        Inl e \<Rightarrow> Inl e
      | Inr action_match \<Rightarrow>
          (case match_steps lib llm_response detected_actions rest of
             Inl e \<Rightarrow> Inl e
           | Inr matches \<Rightarrow> Inr (action_match # matches)))"

text \<open>\<^verbatim>\<open>VideoAnalysisAgent.match_with_instruction\<close>, after the call of the model has returned
  \<open>llm_response\<close>.\<close>

definition match_with_instruction ::
  "py_library \<Rightarrow> string \<Rightarrow> DetectedAction list \<Rightarrow> Instruction \<Rightarrow> error + ActionMatch list" where
  "match_with_instruction lib llm_response detected_actions instruction =
     match_steps lib llm_response detected_actions (steps instruction)"


text \<open>\<^verbatim>\<open>missing_steps\<close> of \<^verbatim>\<open>analyze_video\<close> (analyzer.py).\<close>

definition missing_steps :: "ActionMatch list \<Rightarrow> int list" where
  "missing_steps action_matches =
     [ActionMatch.step_number m. m \<leftarrow> action_matches, \<not> matched m]"

section \<open>Live compliance tracking (live\_analyzer.py)\<close>

text \<open>The formatted texts of the tracker, each with the values it interpolates: all steps
  done; step \<open>n\<close> done, with its description; step \<open>n\<close> performed instead of step \<open>m\<close>;
  step \<open>n\<close> expected, with its description; waiting for actions.\<close>

datatype message =
    AllStepsDone
  | StepDone int string
  | OutOfOrder int int
  | Expected int string
  | WaitingForActions

text \<open>The dictionaries returned by \<^verbatim>\<open>_check_instruction_compliance\<close>, one constructor for
  each \<^verbatim>\<open>status\<close>, with the values of the keys in the order of the source: \<^verbatim>\<open>message\<close>,
  \<^verbatim>\<open>current_step\<close>, then \<^verbatim>\<open>expected_next\<close> or \<^verbatim>\<open>detected_step\<close> where present, \<^verbatim>\<open>warnings\<close>,
  and \<^verbatim>\<open>progress\<close> as the pair of the two counts it prints.\<close>

datatype result =
    Waiting message "message list"
  | Completed message "message list"
  | StepCompleted message int "int option" "message list" "nat \<times> nat"
  | Warning message int int "message list" "nat \<times> nat"
  | InProgress message int "message list" "nat \<times> nat"

record LiveAnalyzer =
  instruction :: Instruction
  analysis_interval :: real
  current_step :: nat
  completed_steps :: "int list"
  last_analysis_time :: real
  current_action :: "DetectedAction option"
  warnings :: "message list"
  action_history :: "DetectedAction list"

text \<open>\<^verbatim>\<open>LiveAnalyzer.__init__\<close>\<close>

definition init :: "Instruction \<Rightarrow> real \<Rightarrow> LiveAnalyzer" where
  "init instr interval =
     \<lparr>instruction = instr, analysis_interval = interval, current_step = 0,
      completed_steps = [], last_analysis_time = 0, current_action = None,
      warnings = [], action_history = []\<rparr>"

text \<open>\<^verbatim>\<open>LiveAnalyzer.should_analyze\<close>\<close>

definition should_analyze :: "LiveAnalyzer \<Rightarrow> real \<Rightarrow> bool" where
  "should_analyze self current_time =
     (current_time - last_analysis_time self \<ge> analysis_interval self)"

text \<open>The loop \<^verbatim>\<open>for i, step in enumerate(self.instruction.steps)\<close> that looks for a later
  step matching the observation: the first step at an index above the cursor whose score
  exceeds 0.3.\<close>

fun out_of_order_loop ::
  "nat \<Rightarrow> string \<Rightarrow> (nat \<times> InstructionStep) list \<Rightarrow> InstructionStep option" where
  "out_of_order_loop cursor action_desc [] = None"
| "out_of_order_loop cursor action_desc ((i, step) # rest) =
     (if i \<le> cursor then out_of_order_loop cursor action_desc rest
      else if calculate_match_score (InstructionStep.description step) action_desc > 0.3
           then Some step
           else out_of_order_loop cursor action_desc rest)"

text \<open>\<^verbatim>\<open>LiveAnalyzer._check_instruction_compliance\<close>: the returned dictionary and the
  object after the call.\<close>

definition check_instruction_compliance :: "LiveAnalyzer \<Rightarrow> result \<times> LiveAnalyzer" where
  "check_instruction_compliance self =
     (case current_action self of
        None \<Rightarrow> (Waiting WaitingForActions [], self)
      | Some action \<Rightarrow>
          (let all_steps = steps (instruction self) in
           if current_step self \<ge> length all_steps
           then (Completed AllStepsDone (warnings self), self)
           else
             (let expected_step = all_steps ! current_step self;
                  match_score = calculate_match_score (InstructionStep.description expected_step)
                                  (DetectedAction.description action)
              in if match_score > 0.3
                 then
                   (let self1 = self\<lparr>completed_steps := completed_steps self @
                                        [InstructionStep.step_number expected_step]\<rparr>;
                        self2 = self1\<lparr>current_step := current_step self1 + 1\<rparr>
                    in (StepCompleted
                          (StepDone (InstructionStep.step_number expected_step)
                             (InstructionStep.description expected_step))
                          (InstructionStep.step_number expected_step)
                          (if current_step self2 < length all_steps
                           then Some (InstructionStep.step_number (all_steps ! current_step self2))
                           else None)
                          []
                          (length (completed_steps self2), length all_steps),
                        self2))
                 else
                   (case out_of_order_loop (current_step self)
                           (DetectedAction.description action) (enumerate 0 all_steps) of
                      Some step \<Rightarrow>
                        (let warning = OutOfOrder (InstructionStep.step_number step)
                                         (InstructionStep.step_number expected_step);
                             self1 = self\<lparr>warnings := warnings self @ [warning]\<rparr>
                         in (Warning warning
                               (InstructionStep.step_number expected_step)
                               (InstructionStep.step_number step)
                               [warning]
                               (length (completed_steps self1), length all_steps),
                             self1))
                    | None \<Rightarrow>
                        (InProgress
                           (Expected (InstructionStep.step_number expected_step)
                              (InstructionStep.description expected_step))
                           (InstructionStep.step_number expected_step)
                           []
                           (length (completed_steps self), length all_steps),
                         self)))))"

text \<open>\<^verbatim>\<open>LiveAnalyzer.analyze_frame\<close>, after the agent has described the frame as
  \<open>frame_description\<close>.\<close>

definition analyze_frame :: "LiveAnalyzer \<Rightarrow> string \<Rightarrow> real \<Rightarrow> result \<times> LiveAnalyzer" where
  "analyze_frame self frame_description timestamp =
     (let action = observed frame_description timestamp timestamp;
          self1 = self\<lparr>current_action := Some action\<rparr>;
          self2 = self1\<lparr>action_history := action_history self1 @ [action]\<rparr>;
          (result, self3) = check_instruction_compliance self2
      in (result, self3\<lparr>last_analysis_time := timestamp\<rparr>))"

text \<open>A session: the calls of \<^verbatim>\<open>analyze_frame\<close> on the frames, each given as the agent's
  description and the timestamp, in order. \<open>run\<close> is the object after the calls,
  \<open>run_results\<close> the dictionaries they returned.\<close>

fun run :: "LiveAnalyzer \<Rightarrow> (string \<times> real) list \<Rightarrow> LiveAnalyzer" where
  "run self [] = self"
| "run self ((d, t) # frames) = run (snd (analyze_frame self d t)) frames"

fun run_results :: "LiveAnalyzer \<Rightarrow> (string \<times> real) list \<Rightarrow> result list" where
  "run_results self [] = []"
| "run_results self ((d, t) # frames) =
     fst (analyze_frame self d t) # run_results (snd (analyze_frame self d t)) frames"

section \<open>The scenario of the specification's testable properties\<close>

text \<open>Steps 1 "prepare mold" and 2 "pour mixture"; the two detected actions (0, 15) and
  (20, 40).\<close>

definition scenario_instruction :: Instruction where
  "scenario_instruction =
     \<lparr>title = ''scenario'',
      steps =
        [\<lparr>InstructionStep.step_number = 1, InstructionStep.description = ''prepare mold'',
          expected_duration_seconds = None, critical = False\<rparr>,
         \<lparr>InstructionStep.step_number = 2, InstructionStep.description = ''pour mixture'',
          expected_duration_seconds = None, critical = False\<rparr>]\<rparr>"

definition scenario_actions :: "DetectedAction list" where
  "scenario_actions =
     [observed ''cleaning and preparing the mold'' 0 15,
      observed ''pouring mixture into mold'' 20 40]"

text \<open>The library on a reply in which no step line is found, such as \<^verbatim>\<open>no idea\<close>:
  \<^verbatim>\<open>re.search\<close> returns \<^verbatim>\<open>None\<close> for every step, and nothing else is called.\<close>

definition no_line_library :: py_library where
  "no_line_library =
     \<lparr>search_step = (\<lambda>n r. None), search_time = (\<lambda>s. None), float_of = (\<lambda>s. None)\<rparr>"

text \<open>The reply of one line, the step label in Cyrillic letters (as UTF-8 bytes) followed by
  \<^verbatim>\<open> 1: YES - [0.0-15.5] - done\<close>, and the library on it: the step pattern for step 1
  matches with the groups \<^verbatim>\<open>YES\<close>, \<^verbatim>\<open>0.0\<close> (group 2 stops at the dash) and
  \<^verbatim>\<open>15.5] - done\<close>; no other step has a line; the time pattern on \<^verbatim>\<open>0.0\<close> matches with
  group 1 \<^verbatim>\<open>0.0\<close> and no group 2; \<^verbatim>\<open>float("0.0")\<close> is 0.\<close>

definition yes_reply :: string where
  "yes_reply =
     map char_of [208, 168, 208, 176, 208, 179 :: nat] @ '' 1: YES - [0.0-15.5] - done''"

definition yes_library :: py_library where
  "yes_library =
     \<lparr>search_step = (\<lambda>n r. if n = 1 \<and> r = yes_reply
          then Some \<lparr>status_group = YES, time_range_group = Some ''0.0'',
                     comment_group = ''15.5] - done''\<rparr>
          else None),
      search_time = (\<lambda>s. if s = ''0.0''
          then Some \<lparr>start_group = ''0.0'', end_group = None\<rparr> else None),
      float_of = (\<lambda>s. if s = ''0.0'' then Some 0 else None)\<rparr>"



section \<open>Properties of the similarity score\<close>

lemma isspace_lower_char: "isspace (lower_char c) = isspace c"
proof (cases "65 \<le> (of_char c :: nat) \<and> (of_char c :: nat) \<le> 90")
  case True
  then have "(of_char (lower_char c) :: nat) = of_char c + 32"
    by (simp add: lower_char_def)
  with True show ?thesis by (auto simp: isspace_def)
next
  case False
  then show ?thesis by (auto simp: lower_char_def)
qed

lemma split_from_Nil: "split_from w s = [] \<longleftrightarrow> w = [] \<and> (\<forall>c\<in>set s. isspace c)"
  by (induction s arbitrary: w) auto

lemma words_of_empty: "words_of a = {} \<longleftrightarrow> (\<forall>c\<in>set a. isspace c)"
  by (simp add: words_of_def str_split_def split_from_Nil str_lower_def isspace_lower_char)

lemma score_sym: "calculate_match_score a b = calculate_match_score b a"
  by (simp add: calculate_match_score_def Let_def Int_commute Un_commute disj_commute)

lemma score_self: "calculate_match_score a a = (if words_of a = {} then 0 else 1)"
  by (simp add: calculate_match_score_def Let_def words_of_def)

lemma similar_iff_score: "are_similar_descriptions a b \<longleftrightarrow> calculate_match_score a b > 0.5"
  by (simp add: calculate_match_score_def are_similar_descriptions_def Let_def)

text \<open>
  Claim C9, as the code has it. The score is symmetric for all pairs of texts. The score of
  a text against itself is 1 when the text holds at least one character that is not
  whitespace, and 0 otherwise: a text of whitespace only has no token, and the guard on
  empty token sets returns 0.
\<close>

theorem similarity_symmetric_and_self:
  "calculate_match_score a b = calculate_match_score b a \<and>
   calculate_match_score a a = (if \<forall>c\<in>set a. isspace c then 0 else 1)"
  using score_sym [of a b] score_self [of a] by (simp add: words_of_empty)

theorem similarity_symmetric_and_self_witness:
  "calculate_match_score ''Mixing water'' ''mixing'' =
     calculate_match_score ''mixing'' ''Mixing water'' \<and>
   (\<exists>c\<in>set ''Mixing water''. \<not> isspace c) \<and>
   calculate_match_score ''Mixing water'' ''Mixing water'' = 1"
proof -
  have h: "\<exists>c\<in>set ''Mixing water''. \<not> isspace c"
    by (simp add: isspace_def)
  with similarity_symmetric_and_self [of "''Mixing water''" "''mixing''"]
  show ?thesis by simp
qed

text \<open>
  Claim C9 as stated fails: the text of one space is not empty, and its score against
  itself is 0, not 1.
\<close>

theorem similarity_self_counterexample:
  "[CHR '' ''] \<noteq> [] \<and> calculate_match_score [CHR '' ''] [CHR '' ''] = 0 \<and>
   calculate_match_score [CHR '' ''] [CHR '' ''] \<noteq> 1"
  by (simp add: score_self words_of_empty isspace_def)

section \<open>Properties of the merger\<close>

lemma foldl_merge_step:
  "foldl merge_step (pre @ [cur]) rest = pre @ spec_merge_walk cur rest"
proof (induction rest arbitrary: pre cur)
  case Nil
  show ?case by simp
next
  case (Cons a rest)
  show ?case
  proof (cases "timestamp_start a - timestamp_end cur < 10 \<and>
            calculate_match_score (DetectedAction.description cur)
              (DetectedAction.description a) > 0.5")
    case True
    then have "merge_step (pre @ [cur]) a = pre @ [cur\<lparr>timestamp_end := timestamp_end a\<rparr>]"
      by (simp add: merge_step_def Let_def similar_iff_score)
    with True Cons.IH [of pre "cur\<lparr>timestamp_end := timestamp_end a\<rparr>"] show ?thesis
      by (auto simp: Let_def)
  next
    case False
    then have "merge_step (pre @ [cur]) a = (pre @ [cur]) @ [a]"
      by (simp add: merge_step_def Let_def similar_iff_score)
    with False Cons.IH [of "pre @ [cur]" a] show ?thesis
      by (auto simp: Let_def)
  qed
qed

lemma merge_refines: "merge_similar_actions actions = spec_merge actions"
  using foldl_merge_step [of "[]"]
  by (simp add: merge_similar_actions_def spec_merge_def split: list.splits)

lemma walk_shape:
  "\<exists>e zs. spec_merge_walk cur rest = cur\<lparr>timestamp_end := e\<rparr> # zs \<and>
          subseq (map kept_of zs) (map kept_of rest)"
proof (induction rest arbitrary: cur)
  case Nil
  have "spec_merge_walk cur [] = cur\<lparr>timestamp_end := timestamp_end cur\<rparr> # []"
    by simp
  then show ?case by (metis list.simps(8) subseq_order.order_refl)
next
  case (Cons a rest)
  show ?case
  proof (cases "timestamp_start a - timestamp_end cur < 10 \<and>
            calculate_match_score (DetectedAction.description cur)
              (DetectedAction.description a) > 0.5")
    case True
    from Cons.IH [of "cur\<lparr>timestamp_end := timestamp_end a\<rparr>"]
    obtain e zs where w: "spec_merge_walk (cur\<lparr>timestamp_end := timestamp_end a\<rparr>) rest =
        cur\<lparr>timestamp_end := e\<rparr> # zs" and s: "subseq (map kept_of zs) (map kept_of rest)"
      by auto
    from s have "subseq (map kept_of zs) (map kept_of (a # rest))"
      by (simp add: list_emb_Cons)
    moreover from True w have "spec_merge_walk cur (a # rest) = cur\<lparr>timestamp_end := e\<rparr> # zs"
      by (auto simp: Let_def)
    ultimately show ?thesis by blast
  next
    case False
    from Cons.IH [of a]
    obtain e zs where w: "spec_merge_walk a rest = a\<lparr>timestamp_end := e\<rparr> # zs"
      and s: "subseq (map kept_of zs) (map kept_of rest)"
      by auto
    have k: "kept_of (a\<lparr>timestamp_end := e\<rparr>) = kept_of a"
      by (simp add: kept_of_def)
    from s k have "subseq (map kept_of (a\<lparr>timestamp_end := e\<rparr> # zs)) (map kept_of (a # rest))"
      by simp
    moreover from False w have "spec_merge_walk cur (a # rest) =
        cur\<lparr>timestamp_end := timestamp_end cur\<rparr> # a\<lparr>timestamp_end := e\<rparr> # zs"
      by (auto simp: Let_def)
    ultimately show ?thesis by blast
  qed
qed

lemma kept_walk: "subseq (map kept_of (spec_merge_walk cur rest)) (map kept_of (cur # rest))"
proof -
  from walk_shape [of cur rest]
  obtain e zs where w: "spec_merge_walk cur rest = cur\<lparr>timestamp_end := e\<rparr> # zs"
    and s: "subseq (map kept_of zs) (map kept_of rest)"
    by auto
  have "kept_of (cur\<lparr>timestamp_end := e\<rparr>) = kept_of cur"
    by (simp add: kept_of_def)
  with w s show ?thesis by simp
qed

lemma kept_merge: "subseq (map kept_of (merge_similar_actions actions)) (map kept_of actions)"
proof (cases actions)
  case Nil
  then show ?thesis by (simp add: merge_similar_actions_def)
next
  case (Cons first rest)
  with kept_walk [of first rest] show ?thesis
    by (simp add: merge_refines spec_merge_def)
qed

lemma sorted_wrt_subseq: "subseq xs ys \<Longrightarrow> sorted_wrt P ys \<Longrightarrow> sorted_wrt P xs"
  by (induction rule: list_emb.induct) (auto dest: list_emb_set)

lemma starts_merge:
  "subseq (map timestamp_start (merge_similar_actions actions)) (map timestamp_start actions)"
proof -
  have "map timestamp_start xs = map (fst \<circ> snd) (map kept_of xs)" for xs
    by (simp add: kept_of_def)
  then show ?thesis using kept_merge [of actions] by (metis subseq_map)
qed

lemma sorted_merge:
  "sorted (map timestamp_start actions) \<Longrightarrow>
   sorted (map timestamp_start (merge_similar_actions actions))"
  using starts_merge sorted_wrt_subseq by blast

text \<open>
  Claim C6. The merger of the source computes the single walk of the specification
  (\<open>spec_merge\<close>: an action is absorbed exactly when the gap is below 10 and the score
  exceeds 0.5, the interval keeping its first description and taking the action's end;
  otherwise the interval is closed and the action opens the next; the last interval is
  emitted). The empty input gives the empty output. The output intervals are opened by
  input actions in the input's order: their descriptions, start times and confidences
  form a subsequence of the input's, so an input ordered by start time gives an output
  ordered by start time.
\<close>

theorem merge_similar_actions_is_single_walk:
  "merge_similar_actions actions = spec_merge actions \<and>
   merge_similar_actions [] = [] \<and>
   subseq (map kept_of (merge_similar_actions actions)) (map kept_of actions) \<and>
   (sorted (map timestamp_start actions) \<longrightarrow>
      sorted (map timestamp_start (merge_similar_actions actions)))"
  using merge_refines [of actions] kept_merge [of actions] sorted_merge [of actions]
  by (simp add: merge_similar_actions_def)

theorem merge_similar_actions_is_single_walk_witness:
  "sorted (map timestamp_start
      [observed ''mixing'' 0 5, observed ''Mixing'' 6 10, observed ''mixing'' 40 45]) \<and>
   merge_similar_actions
      [observed ''mixing'' 0 5, observed ''Mixing'' 6 10, observed ''mixing'' 40 45] =
      [observed ''mixing'' 0 10, observed ''mixing'' 40 45] \<and>
   sorted (map timestamp_start (merge_similar_actions
      [observed ''mixing'' 0 5, observed ''Mixing'' 6 10, observed ''mixing'' 40 45]))"
proof -
  let ?input = "[observed ''mixing'' 0 5, observed ''Mixing'' 6 10, observed ''mixing'' 40 45]"
  have h: "sorted (map timestamp_start ?input)"
    by (simp add: observed_def)
  have s1: "calculate_match_score ''mixing'' ''Mixing'' = 1"
    by code_simp
  have s2: "calculate_match_score ''mixing'' ''mixing'' = 1"
    by (simp add: score_self words_of_empty isspace_def)
  have e: "spec_merge ?input = [observed ''mixing'' 0 10, observed ''mixing'' 40 45]"
    by (simp add: spec_merge_def observed_def s1 s2)
  from h e merge_similar_actions_is_single_walk [of ?input] show ?thesis
    by (simp add: observed_def)
qed

text \<open>
  Claim C2, as the code has it. The token sets of "mixing" and "mixing water" share one
  token of two, so their score is exactly 0.5, which does not exceed 0.5: the second action
  is not absorbed, and the merger returns the three intervals unchanged.
\<close>

theorem merge_scenario_three_intervals:
  "calculate_match_score ''mixing'' ''mixing water'' = 1 / 2 \<and>
   merge_similar_actions
      [observed ''mixing'' 0 5, observed ''mixing water'' 6 10, observed ''mixing'' 40 45] =
      [observed ''mixing'' 0 5, observed ''mixing water'' 6 10, observed ''mixing'' 40 45]"
proof -
  have s1: "calculate_match_score ''mixing'' ''mixing water'' = 1 / 2"
    by (simp add: calculate_match_score_def words_of_def str_split_def str_lower_def
        lower_char_def isspace_def)
  have s2: "calculate_match_score ''mixing water'' ''mixing'' = 1 / 2"
    using s1 by (simp add: score_sym)
  show ?thesis
    by (simp add: s1 merge_similar_actions_def merge_step_def similar_iff_score observed_def s2)
qed

theorem merge_scenario_three_intervals_witness:
  "length (merge_similar_actions
      [observed ''mixing'' 0 5, observed ''mixing water'' 6 10, observed ''mixing'' 40 45]) = 3"
  using merge_scenario_three_intervals by simp

text \<open>
  Claim C2 as stated fails: the merger's output on the three actions is not the two
  intervals (0, 10, "mixing") and (40, 45, "mixing").
\<close>

theorem merge_scenario_counterexample:
  "merge_similar_actions
      [observed ''mixing'' 0 5, observed ''mixing water'' 6 10, observed ''mixing'' 40 45] \<noteq>
      [observed ''mixing'' 0 10, observed ''mixing'' 40 45]"
proof -
  have s2: "calculate_match_score ''mixing'' ''mixing water'' = 1 / 2"
    by (simp add: calculate_match_score_def words_of_def str_split_def str_lower_def
        lower_char_def isspace_def)
  show ?thesis
    by (simp add: merge_similar_actions_def merge_step_def similar_iff_score observed_def s2)
qed

section \<open>Properties of the batch matcher\<close>

lemma score_loop_inv:
  "score_loop d acts (bs, bm) = (bs', bm') \<Longrightarrow>
     bs \<le> bs' \<and> (bs' = bs \<longrightarrow> bm' = bm) \<and>
     (bs < bs' \<longrightarrow> (\<exists>a\<in>set acts. bm' = Some a \<and>
         calculate_match_score d (DetectedAction.description a) = bs')) \<and>
     (\<forall>a\<in>set acts. calculate_match_score d (DetectedAction.description a) \<le> bs')"
proof (induction acts arbitrary: bs bm)
  case Nil
  then show ?case by simp
next
  case (Cons a rest)
  let ?s = "calculate_match_score d (DetectedAction.description a)"
  show ?case
  proof (cases "?s > bs")
    case True
    with Cons.prems have "score_loop d rest (?s, Some a) = (bs', bm')"
      by (simp add: Let_def)
    from Cons.IH [OF this] True show ?thesis
      by (cases "bs' = ?s") auto
  next
    case False
    with Cons.prems have "score_loop d rest (bs, bm) = (bs', bm')"
      by (simp add: Let_def)
    from Cons.IH [OF this] False show ?thesis
      by auto
  qed
qed

lemma score_loop_best:
  assumes "score_loop d acts (0, None) = (bs, bm)"
  shows "bs = Max (insert 0 ((\<lambda>a. calculate_match_score d (DetectedAction.description a)) ` set acts))"
    and "0 < bs \<Longrightarrow> \<exists>a\<in>set acts. bm = Some a \<and>
           calculate_match_score d (DetectedAction.description a) = bs"
    and "bs = 0 \<Longrightarrow> bm = None"
proof -
  note inv = score_loop_inv [OF assms]
  let ?S = "insert 0 ((\<lambda>a. calculate_match_score d (DetectedAction.description a)) ` set acts)"
  have fin: "finite ?S" by simp
  have mem: "bs \<in> ?S"
  proof (cases "bs = 0")
    case True
    then show ?thesis by simp
  next
    case False
    with inv have "0 < bs" by simp
    with inv show ?thesis by auto
  qed
  have ub: "x \<le> bs" if "x \<in> ?S" for x
    using that inv by auto
  show "bs = Max ?S"
    by (rule sym, rule Max_eqI [OF fin ub mem])
  show "0 < bs \<Longrightarrow> \<exists>a\<in>set acts. bm = Some a \<and>
           calculate_match_score d (DetectedAction.description a) = bs"
    using inv by simp
  show "bs = 0 \<Longrightarrow> bm = None"
    using inv by simp
qed

lemma match_step_Inr:
  assumes "match_step lib r acts step = Inr m"
  shows "ActionMatch.step_number m = InstructionStep.step_number step \<and>
         (\<not> matched m \<longrightarrow> detected_action m = None)"
proof (cases "search_step lib (InstructionStep.step_number step) r")
  case None
  obtain bs bm where
    l: "score_loop (InstructionStep.description step) acts (0, None) = (bs, bm)"
    by (cases "score_loop (InstructionStep.description step) acts (0, None)")
  from assms None l show ?thesis
    by (auto simp: match_step_def Let_def)
next
  case (Some g)
  show ?thesis
  proof (cases "status_group g \<in> {DA, YES, DA_ru} \<and> truthy (time_range_group g)")
    case True
    show ?thesis
    proof (cases "resolve_time_range lib
        (case time_range_group g of Some t \<Rightarrow> t | None \<Rightarrow> []) acts")
      case (Inl e)
      with assms Some True show ?thesis
        by (simp add: match_step_def Let_def)
    next
      case (Inr bm)
      with assms Some True show ?thesis
        by (auto simp: match_step_def Let_def)
    qed
  next
    case False
    with assms Some show ?thesis
      by (auto simp: match_step_def Let_def)
  qed
qed

lemma match_step_unbound:
  "match_step lib r acts step = Inr m \<Longrightarrow> \<not> matched m \<Longrightarrow> detected_action m = None"
  using match_step_Inr by blast

lemma match_step_fallback:
  assumes "search_step lib (InstructionStep.step_number step) r = None"
    and "score_loop (InstructionStep.description step) acts (0, None) = (bs, bm)"
  shows "match_step lib r acts step =
     Inr \<lparr>ActionMatch.step_number = InstructionStep.step_number step,
          matched = (bs > 0.25),
          detected_action = (if bs > 0.25 then bm else None),
          deviation = (if \<not> bs > 0.25 then Some action_not_detected else None)\<rparr>"
  using assms by (simp add: match_step_def)

lemma match_steps_mem:
  "match_steps lib r acts sts = Inr ms \<Longrightarrow> m \<in> set ms \<Longrightarrow>
     \<exists>step\<in>set sts. match_step lib r acts step = Inr m \<and>
        ActionMatch.step_number m = InstructionStep.step_number step"
proof (induction sts arbitrary: ms)
  case Nil
  then show ?case by simp
next
  case (Cons step rest)
  from Cons.prems(1) obtain m0 ms0 where
    a: "match_step lib r acts step = Inr m0" and b: "match_steps lib r acts rest = Inr ms0"
    and c: "ms = m0 # ms0"
    by (auto split: sum.splits)
  have n: "ActionMatch.step_number m0 = InstructionStep.step_number step"
    using match_step_Inr [OF a] by simp
  show ?case
  proof (cases "m = m0")
    case True
    with a n show ?thesis by auto
  next
    case False
    with Cons.prems(2) c have "m \<in> set ms0" by simp
    from Cons.IH [OF b this] show ?thesis by auto
  qed
qed

lemma match_steps_error:
  "match_steps lib r acts sts = Inl e \<Longrightarrow>
     \<exists>step\<in>set sts. match_step lib r acts step = Inl e"
  by (induction sts) (auto split: sum.splits)



lemma fallback_result:
  assumes "search_step lib (InstructionStep.step_number step) llm_response = None"
  shows "\<exists>m. match_step lib llm_response detected_actions step = Inr m \<and>
     ActionMatch.step_number m = InstructionStep.step_number step \<and>
     matched m =
       (Max (insert 0 ((\<lambda>a. calculate_match_score (InstructionStep.description step)
               (DetectedAction.description a)) ` set detected_actions)) > 0.25) \<and>
     (matched m \<longrightarrow>
        deviation m = None \<and>
        (\<exists>a\<in>set detected_actions. detected_action m = Some a \<and>
           calculate_match_score (InstructionStep.description step)
             (DetectedAction.description a) =
           Max (insert 0 ((\<lambda>a. calculate_match_score (InstructionStep.description step)
               (DetectedAction.description a)) ` set detected_actions)))) \<and>
     (\<not> matched m \<longrightarrow>
        detected_action m = None \<and> deviation m = Some action_not_detected)"
proof -
  obtain bs bm where
    l: "score_loop (InstructionStep.description step) detected_actions (0, None) = (bs, bm)"
    by (cases "score_loop (InstructionStep.description step) detected_actions (0, None)")
  define best where "best = Max (insert 0 ((\<lambda>a. calculate_match_score
      (InstructionStep.description step) (DetectedAction.description a)) ` set detected_actions))"
  have b: "bs = best"
    unfolding best_def by (rule score_loop_best(1) [OF l])
  define m where "m = \<lparr>ActionMatch.step_number = InstructionStep.step_number step,
          matched = (bs > 0.25),
          detected_action = (if bs > 0.25 then bm else None),
          deviation = (if \<not> bs > 0.25 then Some action_not_detected else None)\<rparr>"
  have r: "match_step lib llm_response detected_actions step = Inr m"
    unfolding m_def by (rule match_step_fallback [OF assms l])
  have n: "ActionMatch.step_number m = InstructionStep.step_number step"
    by (simp add: m_def)
  have t: "matched m = (best > 0.25)"
    using b by (simp add: m_def)
  have y: "deviation m = None \<and>
        (\<exists>a\<in>set detected_actions. detected_action m = Some a \<and>
           calculate_match_score (InstructionStep.description step)
             (DetectedAction.description a) = best)" if "matched m"
  proof -
    from that have big: "bs > 0.25" by (simp add: m_def)
    then have "0 < bs" by simp
    from score_loop_best(2) [OF l this] obtain a where
      "a \<in> set detected_actions" "bm = Some a"
      "calculate_match_score (InstructionStep.description step) (DetectedAction.description a) = bs"
      by blast
    with big b show ?thesis by (simp add: m_def)
  qed
  have z: "detected_action m = None \<and> deviation m = Some action_not_detected"
    if "\<not> matched m"
    using that by (simp add: m_def)
  from r n t y z show ?thesis
    unfolding best_def by blast
qed

lemma fallback_bound:
  assumes "search_step lib (InstructionStep.step_number step) llm_response = None"
    and "match_step lib llm_response detected_actions step = Inr m"
  shows "matched m \<longleftrightarrow> detected_action m \<noteq> None"
  using fallback_result [OF assms(1), of detected_actions] assms(2) by auto

subsection \<open>The scenario, evaluated\<close>

lemma sc11: "calculate_match_score ''prepare mold'' ''cleaning and preparing the mold'' = 1 / 6"
  by code_simp
lemma sc12: "calculate_match_score ''prepare mold'' ''pouring mixture into mold'' = 1 / 5"
  by code_simp
lemma sc21: "calculate_match_score ''pour mixture'' ''cleaning and preparing the mold'' = 0"
  by code_simp
lemma sc22: "calculate_match_score ''pour mixture'' ''pouring mixture into mold'' = 1 / 5"
  by code_simp

lemma loop1: "score_loop ''prepare mold'' scenario_actions (0, None) =
    (1 / 5, Some (observed ''pouring mixture into mold'' 20 40))"
  by (simp add: scenario_actions_def observed_def sc11 sc12)

lemma loop2: "score_loop ''pour mixture'' scenario_actions (0, None) =
    (1 / 5, Some (observed ''pouring mixture into mold'' 20 40))"
  by (simp add: scenario_actions_def observed_def sc21 sc22)


lemma score_floor1: "calculate_match_score ''prepare mold'' ''sweeping the floor'' = 0"
  by code_simp

lemma score_floor2: "calculate_match_score ''pour mixture'' ''sweeping the floor'' = 0"
  by code_simp

lemma score_the_mold1: "calculate_match_score ''prepare mold'' ''prepare the mold'' = 2 / 3"
  by code_simp

lemma score_the_mold2: "calculate_match_score ''pour mixture'' ''prepare the mold'' = 0"
  by code_simp








text \<open>
  Claim C1, as the code has it. Every \<open>ActionMatch\<close> produced with \<open>matched\<close> false has no
  detected action. The converse holds for every step resolved by the similarity fallback
  (no line found for the step). It does not hold for a step whose line is found with a
  yes verdict: such a step is \<open>matched\<close> whatever action is bound, also when none is.
\<close>

theorem unmatched_is_unbound:
  assumes "match_with_instruction lib llm_response detected_actions instr = Inr ms"
    and "m \<in> set ms"
  shows "(\<not> matched m \<longrightarrow> detected_action m = None) \<and>
     (search_step lib (ActionMatch.step_number m) llm_response = None \<longrightarrow>
        (matched m \<longleftrightarrow> detected_action m \<noteq> None))"
proof -
  from assms have "\<exists>step\<in>set (steps instr).
      match_step lib llm_response detected_actions step = Inr m \<and>
      ActionMatch.step_number m = InstructionStep.step_number step"
    unfolding match_with_instruction_def by (rule match_steps_mem)
  then obtain step where
    s: "match_step lib llm_response detected_actions step = Inr m"
    and n: "ActionMatch.step_number m = InstructionStep.step_number step"
    by blast
  have a: "\<not> matched m \<longrightarrow> detected_action m = None"
    using match_step_unbound [OF s] by simp
  have b: "matched m \<longleftrightarrow> detected_action m \<noteq> None"
    if "search_step lib (ActionMatch.step_number m) llm_response = None"
  proof -
    from that n have "search_step lib (InstructionStep.step_number step) llm_response = None"
      by simp
    from fallback_bound [OF this s] show ?thesis .
  qed
  from a b show ?thesis by blast
qed

theorem unmatched_is_unbound_witness:
  "match_with_instruction no_line_library ''no idea'' [observed ''prepare the mold'' 0 15]
       scenario_instruction =
     Inr [\<lparr>ActionMatch.step_number = 1, matched = True,
           detected_action = Some (observed ''prepare the mold'' 0 15), deviation = None\<rparr>,
          \<lparr>ActionMatch.step_number = 2, matched = False, detected_action = None,
           deviation = Some action_not_detected\<rparr>] \<and>
   search_step no_line_library 2 ''no idea'' = None \<and>
   detected_action \<lparr>ActionMatch.step_number = 2, matched = False, detected_action = None,
           deviation = Some action_not_detected\<rparr> = None"
proof -
  let ?a = "observed ''prepare the mold'' 0 15"
  let ?m1 = "\<lparr>ActionMatch.step_number = 1, matched = True,
           detected_action = Some ?a, deviation = None\<rparr>"
  let ?m2 = "\<lparr>ActionMatch.step_number = 2, matched = False, detected_action = None,
           deviation = Some action_not_detected\<rparr>"
  have e: "match_with_instruction no_line_library ''no idea'' [?a] scenario_instruction =
      Inr [?m1, ?m2]"
    by (simp add: match_with_instruction_def scenario_instruction_def match_step_def
        no_line_library_def observed_def score_the_mold1 score_the_mold2)
  have mem: "?m2 \<in> set [?m1, ?m2]" by simp
  have u: "\<not> matched ?m2" by simp
  have h: "search_step no_line_library 2 ''no idea'' = None"
    by (simp add: no_line_library_def)
  from unmatched_is_unbound [OF e mem] u have "detected_action ?m2 = None"
    by blast
  with e h show ?thesis by blast
qed

text \<open>
  Claim C1 as stated fails. The reply holds the line of step 1 with the verdict YES and the
  time 0.0. With no detected action, and with one detected action a hundred seconds away,
  step 1 is produced \<open>matched\<close> with no detected action.
\<close>

theorem matched_without_action_counterexample:
  "match_with_instruction yes_library yes_reply [] scenario_instruction =
     Inr [\<lparr>ActionMatch.step_number = 1, matched = True, detected_action = None,
           deviation = None\<rparr>,
          \<lparr>ActionMatch.step_number = 2, matched = False, detected_action = None,
           deviation = Some action_not_detected\<rparr>] \<and>
   match_with_instruction yes_library yes_reply [observed ''sweeping the floor'' 100 120]
       scenario_instruction =
     Inr [\<lparr>ActionMatch.step_number = 1, matched = True, detected_action = None,
           deviation = None\<rparr>,
          \<lparr>ActionMatch.step_number = 2, matched = False, detected_action = None,
           deviation = Some action_not_detected\<rparr>] \<and>
   matched \<lparr>ActionMatch.step_number = 1, matched = True, detected_action = None,
           deviation = None\<rparr> \<and>
   detected_action \<lparr>ActionMatch.step_number = 1, matched = True, detected_action = None,
           deviation = None\<rparr> = None"
  by (simp add: match_with_instruction_def scenario_instruction_def match_step_def
      yes_library_def truthy_def resolve_time_range_def observed_def score_floor2)

text \<open>
  Claim C3, as the code has it. In the scenario, with no line found for either step, the
  fallback scores step 1 at 1/6 and 1/5 against the two actions and step 2 at 0 and 1/5
  (the tokens "prepare" and "preparing", "pour" and "pouring" differ). No score exceeds
  0.25: both steps are unmatched, bound to no action, with the deviation "action not
  detected", and the missing steps are 1 and 2.
\<close>

theorem scenario_fallback_both_missing:
  assumes "search_step lib 1 llm_response = None" and "search_step lib 2 llm_response = None"
  shows "match_with_instruction lib llm_response scenario_actions scenario_instruction =
       Inr [\<lparr>ActionMatch.step_number = 1, matched = False, detected_action = None,
             deviation = Some action_not_detected\<rparr>,
            \<lparr>ActionMatch.step_number = 2, matched = False, detected_action = None,
             deviation = Some action_not_detected\<rparr>] \<and>
     missing_steps
           [\<lparr>ActionMatch.step_number = 1, matched = False, detected_action = None,
             deviation = Some action_not_detected\<rparr>,
            \<lparr>ActionMatch.step_number = 2, matched = False, detected_action = None,
             deviation = Some action_not_detected\<rparr>] = [1, 2]"
proof -
  let ?s1 = "\<lparr>InstructionStep.step_number = 1, InstructionStep.description = ''prepare mold'',
          expected_duration_seconds = None, critical = False\<rparr>"
  let ?s2 = "\<lparr>InstructionStep.step_number = 2, InstructionStep.description = ''pour mixture'',
          expected_duration_seconds = None, critical = False\<rparr>"
  have m1: "match_step lib llm_response scenario_actions ?s1 =
      Inr \<lparr>ActionMatch.step_number = 1, matched = False, detected_action = None,
             deviation = Some action_not_detected\<rparr>"
    using assms(1) by (simp add: match_step_def loop1)
  have m2: "match_step lib llm_response scenario_actions ?s2 =
      Inr \<lparr>ActionMatch.step_number = 2, matched = False, detected_action = None,
             deviation = Some action_not_detected\<rparr>"
    using assms(2) by (simp add: match_step_def loop2)
  have "match_with_instruction lib llm_response scenario_actions scenario_instruction =
       Inr [\<lparr>ActionMatch.step_number = 1, matched = False, detected_action = None,
             deviation = Some action_not_detected\<rparr>,
            \<lparr>ActionMatch.step_number = 2, matched = False, detected_action = None,
             deviation = Some action_not_detected\<rparr>]"
    by (simp add: match_with_instruction_def scenario_instruction_def m1 m2)
  then show ?thesis by (simp add: missing_steps_def)
qed

theorem scenario_fallback_both_missing_witness:
  "search_step no_line_library 1 ''no idea'' = None \<and>
   search_step no_line_library 2 ''no idea'' = None \<and>
   match_with_instruction no_line_library ''no idea'' scenario_actions scenario_instruction =
       Inr [\<lparr>ActionMatch.step_number = 1, matched = False, detected_action = None,
             deviation = Some action_not_detected\<rparr>,
            \<lparr>ActionMatch.step_number = 2, matched = False, detected_action = None,
             deviation = Some action_not_detected\<rparr>]"
proof -
  have h: "search_step no_line_library 1 ''no idea'' = None"
    "search_step no_line_library 2 ''no idea'' = None"
    by (simp_all add: no_line_library_def)
  from scenario_fallback_both_missing [OF h] h show ?thesis by simp
qed

text \<open>
  Claim C3 as stated fails: on a reply with no line for either step, the two matches of the
  scenario are not matched, and the missing steps are 1 and 2, not none.
\<close>

theorem scenario_fallback_counterexample:
  "map matched (projr (match_with_instruction no_line_library ''no idea'' scenario_actions
       scenario_instruction)) = [False, False] \<and>
   missing_steps (projr (match_with_instruction no_line_library ''no idea'' scenario_actions
       scenario_instruction)) = [1, 2] \<and>
   missing_steps (projr (match_with_instruction no_line_library ''no idea'' scenario_actions
       scenario_instruction)) \<noteq> []"
proof -
  have "match_with_instruction no_line_library ''no idea'' scenario_actions scenario_instruction =
       Inr [\<lparr>ActionMatch.step_number = 1, matched = False, detected_action = None,
             deviation = Some action_not_detected\<rparr>,
            \<lparr>ActionMatch.step_number = 2, matched = False, detected_action = None,
             deviation = Some action_not_detected\<rparr>]"
    by (simp add: match_with_instruction_def scenario_instruction_def match_step_def
        no_line_library_def loop1 loop2)
  then show ?thesis by (simp add: missing_steps_def)
qed

section \<open>Properties of the live tracker\<close>

lemma check_terminal:
  assumes "current_action self = Some a"
    and "length (steps (instruction self)) \<le> current_step self"
  shows "check_instruction_compliance self = (Completed AllStepsDone (warnings self), self)"
  using assms by (simp add: check_instruction_compliance_def)

lemma check_step_completed:
  assumes "current_action self = Some a"
    and "current_step self < length (steps (instruction self))"
    and "calculate_match_score
           (InstructionStep.description (steps (instruction self) ! current_step self))
           (DetectedAction.description a) > 0.3"
  shows "snd (check_instruction_compliance self) =
           self\<lparr>completed_steps := completed_steps self @
                    [InstructionStep.step_number (steps (instruction self) ! current_step self)],
                current_step := current_step self + 1\<rparr>"
  using assms by (simp add: check_instruction_compliance_def Let_def)

lemma check_warning:
  assumes "current_action self = Some a"
    and "current_step self < length (steps (instruction self))"
    and "\<not> calculate_match_score
           (InstructionStep.description (steps (instruction self) ! current_step self))
           (DetectedAction.description a) > 0.3"
    and "out_of_order_loop (current_step self) (DetectedAction.description a)
           (enumerate 0 (steps (instruction self))) = Some step"
  shows "check_instruction_compliance self =
     (Warning
        (OutOfOrder (InstructionStep.step_number step)
           (InstructionStep.step_number (steps (instruction self) ! current_step self)))
        (InstructionStep.step_number (steps (instruction self) ! current_step self))
        (InstructionStep.step_number step)
        [OutOfOrder (InstructionStep.step_number step)
           (InstructionStep.step_number (steps (instruction self) ! current_step self))]
        (length (completed_steps self), length (steps (instruction self))),
      self\<lparr>warnings := warnings self @
         [OutOfOrder (InstructionStep.step_number step)
           (InstructionStep.step_number (steps (instruction self) ! current_step self))]\<rparr>)"
  using assms by (simp add: check_instruction_compliance_def Let_def)

lemma check_in_progress:
  assumes "current_action self = Some a"
    and "current_step self < length (steps (instruction self))"
    and "\<not> calculate_match_score
           (InstructionStep.description (steps (instruction self) ! current_step self))
           (DetectedAction.description a) > 0.3"
    and "out_of_order_loop (current_step self) (DetectedAction.description a)
           (enumerate 0 (steps (instruction self))) = None"
  shows "snd (check_instruction_compliance self) = self"
  using assms by (simp add: check_instruction_compliance_def Let_def)

text \<open>What a call of the checker may change: the cursor moves by at most one and stays
  within the steps, the completed steps grow at the end, the warnings grow at the end.\<close>

lemma check_effect:
  assumes "current_action self = Some a"
  shows "\<exists>cs ws. snd (check_instruction_compliance self) =
           self\<lparr>completed_steps := completed_steps self @ cs,
                current_step := current_step self + length cs,
                warnings := warnings self @ ws\<rparr> \<and>
         (current_step self \<le> length (steps (instruction self)) \<longrightarrow>
            current_step self + length cs \<le> length (steps (instruction self)))"
proof (cases "length (steps (instruction self)) \<le> current_step self")
  case True
  from check_terminal [OF assms True] show ?thesis
    by (intro exI [of _ "[]"]) simp
next
  case False
  then have lt: "current_step self < length (steps (instruction self))" by simp
  let ?e = "steps (instruction self) ! current_step self"
  show ?thesis
  proof (cases "calculate_match_score (InstructionStep.description ?e)
           (DetectedAction.description a) > 0.3")
    case True
    from check_step_completed [OF assms lt True] lt show ?thesis
      by (intro exI [of _ "[InstructionStep.step_number ?e]"] exI [of _ "[]"]) simp
  next
    case low: False
    show ?thesis
    proof (cases "out_of_order_loop (current_step self) (DetectedAction.description a)
           (enumerate 0 (steps (instruction self)))")
      case None
      from check_in_progress [OF assms lt low None] show ?thesis
        by (intro exI [of _ "[]"]) simp
    next
      case (Some step)
      from check_warning [OF assms lt low Some] show ?thesis
        by (intro exI [of _ "[]"]
            exI [of _ "[OutOfOrder (InstructionStep.step_number step)
                  (InstructionStep.step_number ?e)]"]) simp
    qed
  qed
qed

lemma analyze_frame_snd:
  "snd (analyze_frame self d t) =
     (snd (check_instruction_compliance
        (self\<lparr>current_action := Some (observed d t t),
              action_history := action_history self @ [observed d t t]\<rparr>)))
     \<lparr>last_analysis_time := t\<rparr>"
  by (simp add: analyze_frame_def Let_def split: prod.splits)

lemma analyze_frame_fst:
  "fst (analyze_frame self d t) =
     fst (check_instruction_compliance
        (self\<lparr>current_action := Some (observed d t t),
              action_history := action_history self @ [observed d t t]\<rparr>))"
  by (simp add: analyze_frame_def Let_def split: prod.splits)

lemma analyze_frame_effect:
  "\<exists>cs ws. snd (analyze_frame self d t) =
           self\<lparr>current_action := Some (observed d t t),
                action_history := action_history self @ [observed d t t],
                completed_steps := completed_steps self @ cs,
                current_step := current_step self + length cs,
                warnings := warnings self @ ws,
                last_analysis_time := t\<rparr> \<and>
         (current_step self \<le> length (steps (instruction self)) \<longrightarrow>
            current_step self + length cs \<le> length (steps (instruction self)))"
proof -
  let ?s = "self\<lparr>current_action := Some (observed d t t),
              action_history := action_history self @ [observed d t t]\<rparr>"
  have "current_action ?s = Some (observed d t t)" by simp
  from check_effect [OF this] obtain cs ws where
    e: "snd (check_instruction_compliance ?s) =
           ?s\<lparr>completed_steps := completed_steps ?s @ cs,
                current_step := current_step ?s + length cs,
                warnings := warnings ?s @ ws\<rparr>"
    and b: "current_step ?s \<le> length (steps (instruction ?s)) \<longrightarrow>
            current_step ?s + length cs \<le> length (steps (instruction ?s))"
    by blast
  from e have "snd (analyze_frame self d t) =
           self\<lparr>current_action := Some (observed d t t),
                action_history := action_history self @ [observed d t t],
                completed_steps := completed_steps self @ cs,
                current_step := current_step self + length cs,
                warnings := warnings self @ ws,
                last_analysis_time := t\<rparr>"
    by (simp add: analyze_frame_snd)
  moreover from b have "current_step self \<le> length (steps (instruction self)) \<longrightarrow>
            current_step self + length cs \<le> length (steps (instruction self))"
    by simp
  ultimately show ?thesis by blast
qed

lemma analyze_frame_facts:
  "instruction (snd (analyze_frame self d t)) = instruction self"
  "action_history (snd (analyze_frame self d t)) = action_history self @ [observed d t t]"
  "current_action (snd (analyze_frame self d t)) = Some (observed d t t)"
  "last_analysis_time (snd (analyze_frame self d t)) = t"
  "current_step self \<le> current_step (snd (analyze_frame self d t))"
  "prefix (completed_steps self) (completed_steps (snd (analyze_frame self d t)))"
  "current_step self \<le> length (steps (instruction self)) \<Longrightarrow>
     current_step (snd (analyze_frame self d t)) \<le> length (steps (instruction self))"
  using analyze_frame_effect [of self d t] by auto

lemma run_append: "run self (fs @ gs) = run (run self fs) gs"
  by (induction fs arbitrary: self) auto

lemma run_facts:
  "instruction (run self fs) = instruction self \<and>
   current_step self \<le> current_step (run self fs) \<and>
   prefix (completed_steps self) (completed_steps (run self fs)) \<and>
   length (action_history (run self fs)) = length (action_history self) + length fs \<and>
   (current_step self \<le> length (steps (instruction self)) \<longrightarrow>
     current_step (run self fs) \<le> length (steps (instruction self)))"
proof (induction fs arbitrary: self)
  case Nil
  show ?case by simp
next
  case (Cons f fs)
  obtain d t where f: "f = (d, t)" by (cases f)
  let ?s = "snd (analyze_frame self d t)"
  note a = analyze_frame_facts [of self d t]
  note ih = Cons.IH [of ?s]
  have "instruction (run ?s fs) = instruction self"
    using ih a(1) by simp
  moreover have "current_step self \<le> current_step (run ?s fs)"
    using ih a(5) by linarith
  moreover have "prefix (completed_steps self) (completed_steps (run ?s fs))"
    using ih a(6) prefix_order.order_trans by blast
  moreover have "length (action_history (run ?s fs)) =
      length (action_history self) + length (f # fs)"
    using ih a(2) by simp
  moreover have "current_step (run ?s fs) \<le> length (steps (instruction self))"
    if "current_step self \<le> length (steps (instruction self))"
    using ih a(7) [OF that] a(1) by simp
  ultimately show ?case using f by simp
qed


lemma analyze_frame_terminal:
  assumes "length (steps (instruction self)) \<le> current_step self"
  shows "analyze_frame self d t =
     (Completed AllStepsDone (warnings self),
      self\<lparr>current_action := Some (observed d t t),
           action_history := action_history self @ [observed d t t],
           last_analysis_time := t\<rparr>)"
proof -
  let ?s = "self\<lparr>current_action := Some (observed d t t),
              action_history := action_history self @ [observed d t t]\<rparr>"
  have "check_instruction_compliance ?s = (Completed AllStepsDone (warnings ?s), ?s)"
    by (rule check_terminal [of ?s "observed d t t"]) (use assms in simp_all)
  then show ?thesis by (simp add: analyze_frame_def Let_def)
qed

lemma run_terminal:
  assumes "length (steps (instruction self)) \<le> current_step self"
  shows "run_results self frames =
           replicate (length frames) (Completed AllStepsDone (warnings self)) \<and>
         current_step (run self frames) = current_step self \<and>
         completed_steps (run self frames) = completed_steps self \<and>
         warnings (run self frames) = warnings self"
  using assms
proof (induction frames arbitrary: self)
  case Nil
  show ?case by simp
next
  case (Cons f frames)
  obtain d t where f: "f = (d, t)" by (cases f)
  let ?s = "self\<lparr>current_action := Some (observed d t t),
           action_history := action_history self @ [observed d t t],
           last_analysis_time := t\<rparr>"
  note a = analyze_frame_terminal [OF Cons.prems, of d t]
  have "length (steps (instruction ?s)) \<le> current_step ?s"
    using Cons.prems by simp
  from Cons.IH [OF this] a f show ?case by simp
qed

lemma out_of_order_found:
  assumes "j < length xs" and "cursor < n + j"
    and "calculate_match_score (InstructionStep.description (xs ! j)) d > 0.3"
  shows "\<exists>k\<le>j. cursor < n + k \<and>
           calculate_match_score (InstructionStep.description (xs ! k)) d > 0.3 \<and>
           (\<forall>i<k. cursor < n + i \<longrightarrow>
               \<not> calculate_match_score (InstructionStep.description (xs ! i)) d > 0.3) \<and>
           out_of_order_loop cursor d (enumerate n xs) = Some (xs ! k)"
  using assms
proof (induction xs arbitrary: n j)
  case Nil
  then show ?case by simp
next
  case (Cons x xs)
  show ?case
  proof (cases "cursor < n \<and> calculate_match_score (InstructionStep.description x) d > 0.3")
    case True
    then have "out_of_order_loop cursor d (enumerate n (x # xs)) = Some ((x # xs) ! 0)"
      by simp
    with True show ?thesis by (intro exI [of _ 0]) simp
  next
    case False
    then have skip: "out_of_order_loop cursor d (enumerate n (x # xs)) =
        out_of_order_loop cursor d (enumerate (Suc n) xs)"
      by auto
    from False Cons.prems have "j \<noteq> 0"
      by (cases j) auto
    then obtain j' where j: "j = Suc j'" by (cases j) auto
    with Cons.prems have p: "j' < length xs" "cursor < Suc n + j'"
      "calculate_match_score (InstructionStep.description (xs ! j')) d > 0.3"
      by simp_all
    from Cons.IH [OF p] obtain k where k: "k \<le> j'" "cursor < Suc n + k"
      "calculate_match_score (InstructionStep.description (xs ! k)) d > 0.3"
      "\<forall>i<k. cursor < Suc n + i \<longrightarrow>
               \<not> calculate_match_score (InstructionStep.description (xs ! i)) d > 0.3"
      "out_of_order_loop cursor d (enumerate (Suc n) xs) = Some (xs ! k)"
      by blast
    have first: "\<not> calculate_match_score (InstructionStep.description ((x # xs) ! i)) d > 0.3"
      if "i < Suc k" "cursor < n + i" for i
    proof (cases i)
      case 0
      with that False show ?thesis by simp
    next
      case (Suc i')
      with that k(4) show ?thesis by simp
    qed
    from k j skip first show ?thesis
      by (intro exI [of _ "Suc k"]) simp
  qed
qed

lemma analyze_frame_warning:
  assumes "current_step self < length (steps (instruction self))"
    and "\<not> calculate_match_score
           (InstructionStep.description (steps (instruction self) ! current_step self)) d > 0.3"
    and "out_of_order_loop (current_step self) d (enumerate 0 (steps (instruction self))) =
           Some step"
  shows "analyze_frame self d t =
     (Warning
        (OutOfOrder (InstructionStep.step_number step)
           (InstructionStep.step_number (steps (instruction self) ! current_step self)))
        (InstructionStep.step_number (steps (instruction self) ! current_step self))
        (InstructionStep.step_number step)
        [OutOfOrder (InstructionStep.step_number step)
           (InstructionStep.step_number (steps (instruction self) ! current_step self))]
        (length (completed_steps self), length (steps (instruction self))),
      self\<lparr>current_action := Some (observed d t t),
           action_history := action_history self @ [observed d t t],
           warnings := warnings self @
             [OutOfOrder (InstructionStep.step_number step)
               (InstructionStep.step_number (steps (instruction self) ! current_step self))],
           last_analysis_time := t\<rparr>)"
proof -
  let ?s = "self\<lparr>current_action := Some (observed d t t),
              action_history := action_history self @ [observed d t t]\<rparr>"
  have c: "check_instruction_compliance ?s =
     (Warning
        (OutOfOrder (InstructionStep.step_number step)
           (InstructionStep.step_number (steps (instruction ?s) ! current_step ?s)))
        (InstructionStep.step_number (steps (instruction ?s) ! current_step ?s))
        (InstructionStep.step_number step)
        [OutOfOrder (InstructionStep.step_number step)
           (InstructionStep.step_number (steps (instruction ?s) ! current_step ?s))]
        (length (completed_steps ?s), length (steps (instruction ?s))),
      ?s\<lparr>warnings := warnings ?s @
         [OutOfOrder (InstructionStep.step_number step)
           (InstructionStep.step_number (steps (instruction ?s) ! current_step ?s))]\<rparr>)"
    by (rule check_warning [of ?s "observed d t t"]) (use assms in \<open>simp_all add: observed_def\<close>)
  then show ?thesis by (simp add: analyze_frame_def Let_def)
qed

lemma score_prepare_pour: "calculate_match_score ''prepare mold'' ''pour mixture'' = 0"
  by code_simp

lemma score_pour_prepare: "calculate_match_score ''pour mixture'' ''prepare mold'' = 0"
  by code_simp

lemma score_pour_pour: "calculate_match_score ''pour mixture'' ''pour mixture'' = 1"
  by code_simp

lemma score_prepare_prepare: "calculate_match_score ''prepare mold'' ''prepare mold'' = 1"
  by code_simp

lemma scenario_run:
  "run (init scenario_instruction 5) [(''pour mixture'', 0)] =
     (init scenario_instruction 5)
       \<lparr>current_action := Some (observed ''pour mixture'' 0 0),
        action_history := [observed ''pour mixture'' 0 0],
        warnings := [OutOfOrder 2 1],
        last_analysis_time := 0\<rparr>"
  "run (init scenario_instruction 5)
       [(''pour mixture'', 0), (''prepare mold'', 5), (''pour mixture'', 10)] =
     (init scenario_instruction 5)
       \<lparr>current_step := 2,
        completed_steps := [1, 2],
        current_action := Some (observed ''pour mixture'' 10 10),
        action_history := [observed ''pour mixture'' 0 0, observed ''prepare mold'' 5 5,
                           observed ''pour mixture'' 10 10],
        warnings := [OutOfOrder 2 1],
        last_analysis_time := 10\<rparr>"
  by (simp_all add: analyze_frame_def check_instruction_compliance_def Let_def init_def
      scenario_instruction_def observed_def score_prepare_pour score_pour_pour
      score_prepare_prepare)

text \<open>
  Claim C8. When the observation scores at most 0.3 against the expected step and above 0.3
  against a step after the cursor, the call returns the warning status that names the
  expected step and the first such later step, appends that warning to the warnings,
  and leaves the cursor and the completed steps as they were.
\<close>

theorem out_of_order_warning:
  assumes "calculate_match_score
       (InstructionStep.description (steps (instruction self) ! current_step self)) d \<le> 0.3"
    and "current_step self < j" and "j < length (steps (instruction self))"
    and "calculate_match_score (InstructionStep.description (steps (instruction self) ! j)) d
           > 0.3"
  shows "\<exists>k. current_step self < k \<and> k \<le> j \<and>
     calculate_match_score (InstructionStep.description (steps (instruction self) ! k)) d > 0.3 \<and>
     fst (analyze_frame self d t) =
       Warning
        (OutOfOrder (InstructionStep.step_number (steps (instruction self) ! k))
           (InstructionStep.step_number (steps (instruction self) ! current_step self)))
        (InstructionStep.step_number (steps (instruction self) ! current_step self))
        (InstructionStep.step_number (steps (instruction self) ! k))
        [OutOfOrder (InstructionStep.step_number (steps (instruction self) ! k))
           (InstructionStep.step_number (steps (instruction self) ! current_step self))]
        (length (completed_steps self), length (steps (instruction self))) \<and>
     warnings (snd (analyze_frame self d t)) = warnings self @
        [OutOfOrder (InstructionStep.step_number (steps (instruction self) ! k))
           (InstructionStep.step_number (steps (instruction self) ! current_step self))] \<and>
     current_step (snd (analyze_frame self d t)) = current_step self \<and>
     completed_steps (snd (analyze_frame self d t)) = completed_steps self"
proof -
  let ?xs = "steps (instruction self)"
  have lt: "current_step self < length ?xs"
    using assms(2,3) by simp
  have low: "\<not> calculate_match_score (InstructionStep.description (?xs ! current_step self)) d
      > 0.3"
    using assms(1) by simp
  from assms(2) have "current_step self < 0 + j" by simp
  from out_of_order_found [OF assms(3) this assms(4)]
  obtain k where k: "k \<le> j" "current_step self < 0 + k"
    "calculate_match_score (InstructionStep.description (?xs ! k)) d > 0.3"
    "out_of_order_loop (current_step self) d (enumerate 0 ?xs) = Some (?xs ! k)"
    by blast
  note a = analyze_frame_warning [OF lt low k(4), of t]
  from k(1,2,3) a show ?thesis
    by (intro exI [of _ k]) simp
qed

theorem out_of_order_warning_witness:
  "fst (analyze_frame (init scenario_instruction 5) ''pour mixture'' 3) =
     Warning (OutOfOrder 2 1) 1 2 [OutOfOrder 2 1] (0, 2) \<and>
   warnings (snd (analyze_frame (init scenario_instruction 5) ''pour mixture'' 3)) =
     [OutOfOrder 2 1] \<and>
   current_step (snd (analyze_frame (init scenario_instruction 5) ''pour mixture'' 3)) = 0 \<and>
   completed_steps (snd (analyze_frame (init scenario_instruction 5) ''pour mixture'' 3)) = []"
proof -
  let ?self = "init scenario_instruction 5"
  have xs: "steps (instruction ?self) =
      [\<lparr>InstructionStep.step_number = 1, InstructionStep.description = ''prepare mold'',
          expected_duration_seconds = None, critical = False\<rparr>,
         \<lparr>InstructionStep.step_number = 2, InstructionStep.description = ''pour mixture'',
          expected_duration_seconds = None, critical = False\<rparr>]"
    and c: "current_step ?self = 0" "completed_steps ?self = []" "warnings ?self = []"
    by (simp_all add: init_def scenario_instruction_def)
  have h1: "calculate_match_score
       (InstructionStep.description (steps (instruction ?self) ! current_step ?self))
       ''pour mixture'' \<le> 0.3"
    by (simp add: xs c score_prepare_pour)
  have h2: "current_step ?self < 1" by (simp add: c)
  have h3: "1 < length (steps (instruction ?self))" by (simp add: xs)
  have h4: "calculate_match_score (InstructionStep.description (steps (instruction ?self) ! 1))
       ''pour mixture'' > 0.3"
    by (simp add: xs score_pour_pour)
  from out_of_order_warning [OF h1 h2 h3 h4, of 3] obtain k where
    k: "current_step ?self < k" "k \<le> 1"
    and r: "fst (analyze_frame ?self ''pour mixture'' 3) =
       Warning
        (OutOfOrder (InstructionStep.step_number (steps (instruction ?self) ! k))
           (InstructionStep.step_number (steps (instruction ?self) ! current_step ?self)))
        (InstructionStep.step_number (steps (instruction ?self) ! current_step ?self))
        (InstructionStep.step_number (steps (instruction ?self) ! k))
        [OutOfOrder (InstructionStep.step_number (steps (instruction ?self) ! k))
           (InstructionStep.step_number (steps (instruction ?self) ! current_step ?self))]
        (length (completed_steps ?self), length (steps (instruction ?self)))"
    and w: "warnings (snd (analyze_frame ?self ''pour mixture'' 3)) = warnings ?self @
        [OutOfOrder (InstructionStep.step_number (steps (instruction ?self) ! k))
           (InstructionStep.step_number (steps (instruction ?self) ! current_step ?self))]"
    and u: "current_step (snd (analyze_frame ?self ''pour mixture'' 3)) = current_step ?self"
      "completed_steps (snd (analyze_frame ?self ''pour mixture'' 3)) = completed_steps ?self"
    by blast
  from k c have "k = 1" by simp
  with r w u show ?thesis by (simp add: xs c)
qed

text \<open>
  Claim C4. From a new tracker, along every sequence of calls, the cursor never decreases
  and never exceeds the number of steps, and the completed steps only grow at the end:
  what was recorded after the first calls is a prefix of what is recorded after more.
\<close>

theorem cursor_monotone_completed_append_only:
  "current_step (run (init instr interval) fs) \<le>
     current_step (run (init instr interval) (fs @ gs)) \<and>
   current_step (run (init instr interval) (fs @ gs)) \<le> length (steps instr) \<and>
   prefix (completed_steps (run (init instr interval) fs))
     (completed_steps (run (init instr interval) (fs @ gs)))"
proof -
  let ?s0 = "init instr interval"
  have i: "instruction ?s0 = instr" "current_step ?s0 = 0"
    by (simp_all add: init_def)
  note a = run_facts [of "run ?s0 fs" gs]
  note b = run_facts [of ?s0 "fs @ gs"]
  from a have "current_step (run ?s0 fs) \<le> current_step (run ?s0 (fs @ gs))"
    and "prefix (completed_steps (run ?s0 fs)) (completed_steps (run ?s0 (fs @ gs)))"
    by (simp_all add: run_append)
  moreover from b i have "current_step (run ?s0 (fs @ gs)) \<le> length (steps instr)"
    by simp
  ultimately show ?thesis by simp
qed

theorem cursor_monotone_completed_append_only_witness:
  "current_step (run (init scenario_instruction 5) [(''pour mixture'', 0)]) = 0 \<and>
   current_step (run (init scenario_instruction 5)
      ([(''pour mixture'', 0)] @ [(''prepare mold'', 5), (''pour mixture'', 10)])) = 2 \<and>
   current_step (run (init scenario_instruction 5)
      ([(''pour mixture'', 0)] @ [(''prepare mold'', 5), (''pour mixture'', 10)]))
     \<le> length (steps scenario_instruction) \<and>
   prefix (completed_steps (run (init scenario_instruction 5) [(''pour mixture'', 0)]))
     (completed_steps (run (init scenario_instruction 5)
        ([(''pour mixture'', 0)] @ [(''prepare mold'', 5), (''pour mixture'', 10)])))"
  using cursor_monotone_completed_append_only [of scenario_instruction 5
      "[(''pour mixture'', 0)]" "[(''prepare mold'', 5), (''pour mixture'', 10)]"]
    scenario_run
  by (simp add: init_def)

text \<open>
  Claim C5. Once the cursor has reached the number of steps, every further call returns
  the completed status, and the cursor, the completed steps and the warnings stay as they
  are, along every sequence of further calls.
\<close>

theorem terminal_state_absorbing:
  assumes "length (steps (instruction self)) \<le> current_step self"
  shows "fst (analyze_frame self d t) = Completed AllStepsDone (warnings self) \<and>
     current_step (snd (analyze_frame self d t)) = current_step self \<and>
     completed_steps (snd (analyze_frame self d t)) = completed_steps self \<and>
     run_results self frames =
       replicate (length frames) (Completed AllStepsDone (warnings self)) \<and>
     current_step (run self frames) = current_step self \<and>
     completed_steps (run self frames) = completed_steps self"
  using analyze_frame_terminal [OF assms, of d t] run_terminal [OF assms, of frames]
  by simp

theorem terminal_state_absorbing_witness:
  "length (steps (instruction (run (init scenario_instruction 5)
       [(''pour mixture'', 0), (''prepare mold'', 5), (''pour mixture'', 10)])))
     \<le> current_step (run (init scenario_instruction 5)
       [(''pour mixture'', 0), (''prepare mold'', 5), (''pour mixture'', 10)]) \<and>
   run_results (run (init scenario_instruction 5)
       [(''pour mixture'', 0), (''prepare mold'', 5), (''pour mixture'', 10)])
       [(''prepare mold'', 15), (''pour mixture'', 20)] =
     [Completed AllStepsDone [OutOfOrder 2 1], Completed AllStepsDone [OutOfOrder 2 1]] \<and>
   current_step (run (run (init scenario_instruction 5)
       [(''pour mixture'', 0), (''prepare mold'', 5), (''pour mixture'', 10)])
       [(''prepare mold'', 15), (''pour mixture'', 20)]) = 2 \<and>
   completed_steps (run (run (init scenario_instruction 5)
       [(''pour mixture'', 0), (''prepare mold'', 5), (''pour mixture'', 10)])
       [(''prepare mold'', 15), (''pour mixture'', 20)]) = [1, 2]"
proof -
  let ?t = "run (init scenario_instruction 5)
       [(''pour mixture'', 0), (''prepare mold'', 5), (''pour mixture'', 10)]"
  have c: "current_step ?t = 2" "completed_steps ?t = [1, 2]" "warnings ?t = [OutOfOrder 2 1]"
    "length (steps (instruction ?t)) = 2"
    unfolding scenario_run(2) by (simp_all add: init_def scenario_instruction_def)
  then have h: "length (steps (instruction ?t)) \<le> current_step ?t" by simp
  from terminal_state_absorbing [OF h, of "''x''" 0 "[(''prepare mold'', 15), (''pour mixture'', 20)]"]
    c h show ?thesis
    by (simp add: numeral_2_eq_2)
qed

text \<open>
  Claim C10. Every call, in every state, appends the observation (whose start and end are
  the frame's timestamp) to the action history, makes it the current action and sets the
  time of the last analysis to the frame's timestamp; so the history grows by one for each
  call of a session, also after all steps are completed.
\<close>

theorem every_call_records_observation:
  "action_history (snd (analyze_frame self d t)) = action_history self @ [observed d t t] \<and>
   DetectedAction.description (observed d t t) = d \<and>
   timestamp_start (observed d t t) = t \<and>
   timestamp_end (observed d t t) = t \<and>
   current_action (snd (analyze_frame self d t)) = Some (observed d t t) \<and>
   last_analysis_time (snd (analyze_frame self d t)) = t \<and>
   length (action_history (run self frames)) = length (action_history self) + length frames"
  using analyze_frame_facts(2,3,4) [of self d t] run_facts [of self frames]
  by (simp add: observed_def)

theorem every_call_records_observation_witness:
  "length (steps (instruction ((init scenario_instruction 5)
       \<lparr>current_step := 2, completed_steps := [1, 2]\<rparr>)))
     \<le> current_step ((init scenario_instruction 5)
       \<lparr>current_step := 2, completed_steps := [1, 2]\<rparr>) \<and>
   action_history (snd (analyze_frame ((init scenario_instruction 5)
       \<lparr>current_step := 2, completed_steps := [1, 2]\<rparr>) ''pour mixture'' 20)) =
     [observed ''pour mixture'' 20 20] \<and>
   last_analysis_time (snd (analyze_frame ((init scenario_instruction 5)
       \<lparr>current_step := 2, completed_steps := [1, 2]\<rparr>) ''pour mixture'' 20)) = 20"
  using every_call_records_observation [of "(init scenario_instruction 5)
       \<lparr>current_step := 2, completed_steps := [1, 2]\<rparr>" "''pour mixture''" 20 "[]"]
  by (simp add: init_def scenario_instruction_def)

end
